theory Spec2Isabelle
  imports Complex_Main "HOL-Library.List_Lexorder" "HOL-Library.Char_ord"
begin

section \<open>Shared data: payloads, packets, published messages\<close>

text \<open>
  The Python modules publish dictionaries that are rendered as JSON. A dictionary literal
  is kept as an association list in the order the source writes its keys; the values that
  occur are strings, integers, booleans and lists of strings.

  Python \<open>str\<close> values are modelled as \<open>string\<close> (byte lists, UTF-8 for
  anything beyond ASCII). Clock readings (\<open>time.time()\<close>, a float in the source) are
  modelled as real numbers.
\<close>

datatype json = JStr string | JNum int | JBool bool | JList "string list"

type_synonym payload = "(string \<times> json) list"

text \<open>A message handed to \<open>mqtt_helper.publish\<close>: the topic and the payload.\<close>

type_synonym message = "string \<times> payload"

text \<open>
  A captured frame, as far as the detectors look at it: which layers it has, the two
  addresses (the text scapy renders for a hardware address), and the decoded text of
  its first information element (\<open>None\<close> when reading or decoding it raises, the
  \<open>except\<close> branch of \<open>DetectRogue\<close>).
\<close>

record packet =
  has_Dot11Deauth :: bool
  has_Dot11Beacon :: bool
  addr1 :: string
  addr2 :: string
  elt_info :: "string option"

section \<open>DeauthDetection.py\<close>

record deauth_state =
  DeauthRecords :: "string \<rightharpoonup> (real \<times> string) list"
  MaxDeauthCounts :: "string \<rightharpoonup> nat"
  LastAlertTime :: "string \<rightharpoonup> real"

definition init_deauth :: deauth_state where
  "init_deauth = \<lparr>DeauthRecords = Map.empty, MaxDeauthCounts = Map.empty,
                  LastAlertTime = Map.empty\<rparr>"

definition Threshold :: nat where
  "Threshold = 15"

definition TimeWindow :: int where
  "TimeWindow = 5"

text \<open>
  \<open>Counter(xs).most_common(1)\<close>. A Counter keeps its keys in the order they were first
  inserted; \<open>most_common(1)\<close> is \<open>max\<close> by count over the items, and \<open>max\<close> keeps
  the first of several maximal items.
\<close>

fun first_seen :: "'a list \<Rightarrow> 'a list" where
  "first_seen [] = []"
| "first_seen (x # xs) = x # first_seen (filter (\<lambda>y. y \<noteq> x) xs)"

definition Counter_items :: "'a list \<Rightarrow> ('a \<times> nat) list" where
  "Counter_items xs = map (\<lambda>x. (x, count_list xs x)) (first_seen xs)"

fun first_max :: "('a \<times> nat) \<Rightarrow> ('a \<times> nat) list \<Rightarrow> ('a \<times> nat)" where
  "first_max best [] = best"
| "first_max best (p # ps) = (if snd best < snd p then first_max p ps else first_max best ps)"

definition most_common_1 :: "'a list \<Rightarrow> ('a \<times> nat) list" where
  "most_common_1 xs = (case Counter_items xs of [] \<Rightarrow> [] | p # ps \<Rightarrow> [first_max p ps])"

text \<open>
  \<open>PublishDeauthAlert\<close>. The \<open>timestamp\<close> field is a second clock reading, formatted
  by \<open>time.strftime\<close>; the formatted text is the argument \<open>Stamp\<close>.
\<close>

definition PublishDeauthAlert :: "string \<Rightarrow> string \<Rightarrow> nat \<Rightarrow> string \<Rightarrow> nat \<Rightarrow> message" where
  "PublishDeauthAlert Stamp Destination Count AttackerMAC MaxCount =
     (''alerts/deauth'',
      [(''alert_type'', JStr ''deauth_attack''),
       (''destination'', JStr Destination),
       (''frame_count'', JNum (int Count)),
       (''max_frame_count'', JNum (int MaxCount)),
       (''most_frequent_attacker'', JStr AttackerMAC),
       (''spoofed'', JBool True),
       (''time_window'', JNum TimeWindow),
       (''timestamp'', JStr Stamp)])"

text \<open>
  \<open>DetectDeauth\<close>, one call. \<open>BLOCKED_BSSIDS\<close> is the dictionary of MQTTHelper.py as it
  stands when the frame arrives, \<open>CurrentTime\<close> the reading of \<open>time.time()\<close>. The
  result is the list of messages published by the call and the three dictionaries after it.
\<close>

definition DetectDeauth ::
    "(string \<rightharpoonup> real) \<Rightarrow> real \<Rightarrow> string \<Rightarrow> packet \<Rightarrow> deauth_state \<Rightarrow> message list \<times> deauth_state" where
  "DetectDeauth BLOCKED_BSSIDS CurrentTime Stamp Pkt st =
     (if has_Dot11Deauth Pkt then
        let Destination = addr1 Pkt;
            Attacker = addr2 Pkt
        in if (case BLOCKED_BSSIDS Attacker of None \<Rightarrow> False | Some T \<Rightarrow> CurrentTime - T < 30)
           then ([], st)
           else
             let Appended = (case DeauthRecords st Destination of None \<Rightarrow> [] | Some r \<Rightarrow> r)
                              @ [(CurrentTime, Attacker)];
                 Records = filter (\<lambda>(T, A). CurrentTime - T \<le> real_of_int TimeWindow) Appended;
                 Count = length Records;
                 MaxCount = (case MaxDeauthCounts st Destination of
                               None \<Rightarrow> Count
                             | Some m \<Rightarrow> if m < Count then Count else m);
                 st1 = st\<lparr>DeauthRecords := (DeauthRecords st)(Destination \<mapsto> Records),
                          MaxDeauthCounts := (MaxDeauthCounts st)(Destination \<mapsto> MaxCount)\<rparr>
             in if Threshold \<le> Count then
                  let AttackerList = map snd Records;
                      AttackerMAC = (case most_common_1 AttackerList of
                                       [] \<Rightarrow> ''Unknown''
                                     | p # ps \<Rightarrow> fst p)
                  in if (case LastAlertTime st Destination of
                           None \<Rightarrow> True
                         | Some L \<Rightarrow> 1 \<le> CurrentTime - L)
                     then ([PublishDeauthAlert Stamp Destination Count AttackerMAC MaxCount],
                           st1\<lparr>LastAlertTime := (LastAlertTime st)(Destination \<mapsto> CurrentTime)\<rparr>)
                     else ([], st1)
                else ([], st1\<lparr>LastAlertTime := (LastAlertTime st)(Destination := None)\<rparr>)
      else ([], st))"

text \<open>
  The sniffing loop hands every captured frame to \<open>DetectDeauth\<close>. An arrival is the
  clock reading, the formatted stamp and the frame; the block dictionary is the same for
  the whole run.
\<close>

type_synonym arrival = "real \<times> string \<times> packet"

fun sniff_deauth :: "(string \<rightharpoonup> real) \<Rightarrow> arrival list \<Rightarrow> deauth_state \<Rightarrow> message list \<times> deauth_state" where
  "sniff_deauth B [] st = ([], st)"
| "sniff_deauth B ((t, stamp, p) # fs) st =
     (let (out1, st1) = DetectDeauth B t stamp p st;
          (out2, st2) = sniff_deauth B fs st1
      in (out1 @ out2, st2))"

text \<open>A de-authentication frame sent to \<open>D\<close> with sender address \<open>A\<close>.\<close>

definition deauth_frame :: "string \<Rightarrow> string \<Rightarrow> packet" where
  "deauth_frame D A = \<lparr>has_Dot11Deauth = True, has_Dot11Beacon = False,
                       addr1 = D, addr2 = A, elt_info = None\<rparr>"


text \<open>
  The records kept for a destination, read the way \<open>DetectDeauth\<close> reads them: a
  destination without an entry has no records.
\<close>

definition window_of :: "deauth_state \<Rightarrow> string \<Rightarrow> (real \<times> string) list" where
  "window_of st D = (case DeauthRecords st D of None \<Rightarrow> [] | Some r \<Rightarrow> r)"

section \<open>Python string operations used by RogueAPDetection.py\<close>


definition py_lower :: "string \<Rightarrow> string" where
  "py_lower s = map (\<lambda>c. let n = (of_char c :: nat)
                          in if 65 \<le> n \<and> n \<le> 90 then char_of (n + 32) else c) s"

fun py_split :: "char \<Rightarrow> string \<Rightarrow> string list" where
  "py_split sep [] = [[]]"
| "py_split sep (c # cs) =
     (if c = sep then [] # py_split sep cs
      else (case py_split sep cs of [] \<Rightarrow> [[c]] | p # ps \<Rightarrow> (c # p) # ps))"

fun py_join :: "string \<Rightarrow> string list \<Rightarrow> string" where
  "py_join sep [] = []"
| "py_join sep [p] = p"
| "py_join sep (p # q # ps) = p @ sep @ py_join sep (q # ps)"

fun py_replace :: "string \<Rightarrow> string \<Rightarrow> string \<Rightarrow> string" where
  "py_replace old new [] = (if old = [] then new else [])"
| "py_replace old new (c # cs) =
     (if old = [] then new @ c # py_replace old new cs
      else if take (length old) (c # cs) = old
           then new @ py_replace old new (drop (length old - 1) cs)
      else c # py_replace old new cs)"

text \<open>
  \<open>str.strip()\<close> removes the leading and the trailing characters for which
  \<open>str.isspace\<close> holds. These are the code points 09 to 0D, 1C to 1F, 20, 85, A0,
  1680, 2000 to 200A, 2028, 2029, 202F, 205F and 3000; \<open>py_space_seqs\<close> lists their
  UTF-8 encodings. \<open>py_strip_front\<close> removes such encodings from the front of a
  string for as long as there is one.
\<close>

definition py_space_seqs :: "string list" where
  "py_space_seqs =
     [[CHR 0x09], [CHR 0x0A], [CHR 0x0B], [CHR 0x0C], [CHR 0x0D],
      [CHR 0x1C], [CHR 0x1D], [CHR 0x1E], [CHR 0x1F], [CHR 0x20],
      [CHR 0xC2, CHR 0x85], [CHR 0xC2, CHR 0xA0],
      [CHR 0xE1, CHR 0x9A, CHR 0x80],
      [CHR 0xE2, CHR 0x80, CHR 0x80], [CHR 0xE2, CHR 0x80, CHR 0x81],
      [CHR 0xE2, CHR 0x80, CHR 0x82], [CHR 0xE2, CHR 0x80, CHR 0x83],
      [CHR 0xE2, CHR 0x80, CHR 0x84], [CHR 0xE2, CHR 0x80, CHR 0x85],
      [CHR 0xE2, CHR 0x80, CHR 0x86], [CHR 0xE2, CHR 0x80, CHR 0x87],
      [CHR 0xE2, CHR 0x80, CHR 0x88], [CHR 0xE2, CHR 0x80, CHR 0x89],
      [CHR 0xE2, CHR 0x80, CHR 0x8A],
      [CHR 0xE2, CHR 0x80, CHR 0xA8], [CHR 0xE2, CHR 0x80, CHR 0xA9],
      [CHR 0xE2, CHR 0x80, CHR 0xAF],
      [CHR 0xE2, CHR 0x81, CHR 0x9F],
      [CHR 0xE3, CHR 0x80, CHR 0x80]]"

fun py_strip_front :: "string list \<Rightarrow> string \<Rightarrow> string" where
  "py_strip_front seqs [] = []"
| "py_strip_front seqs (c # cs) =
     (case find (\<lambda>w. take (length w) (c # cs) = w) seqs of
        None \<Rightarrow> c # cs
      | Some w \<Rightarrow> py_strip_front seqs (drop (length w - 1) cs))"

definition py_strip :: "string \<Rightarrow> string" where
  "py_strip s =
     rev (py_strip_front (map rev py_space_seqs) (rev (py_strip_front py_space_seqs s)))"

section \<open>RogueAPDetection.py\<close>

record rogue_state =
  PersonalTrusted :: "string \<rightharpoonup> string list"
  PublicTrusted :: "string \<rightharpoonup> string list"
  AlertedRogues :: "(string \<times> string) set"
  UnrecognisedSSIDs :: "string set"

definition init_rogue :: rogue_state where
  "init_rogue = \<lparr>PersonalTrusted = Map.empty, PublicTrusted = Map.empty,
                 AlertedRogues = {}, UnrecognisedSSIDs = {}\<rparr>"

text \<open>
  \<open>NormaliseSSID\<close>. The first pattern is the three-character text the source file
  holds between the quotes, as its UTF-8 bytes; the second is the NUL character.
\<close>

definition NormaliseSSID :: "string \<Rightarrow> string" where
  "NormaliseSSID SSID =
     py_strip (py_replace [CHR 0x00] []
       (py_replace [CHR 0xC3, CHR 0xA2, CHR 0xE2, CHR 0x82, CHR 0xAC, CHR 0xE2, CHR 0x84, CHR 0xA2]
          [CHR 0x27] SSID))"

definition GetPrefix :: "string \<Rightarrow> string" where
  "GetPrefix BSSID =
     (let parts = py_split (CHR '':'') BSSID
      in if 3 \<le> length parts then py_lower (py_join '':'' (take 3 parts))
         else py_lower BSSID)"

definition PublishAlert :: "payload \<Rightarrow> message" where
  "PublishAlert AlertData = (''alerts/rogue_ap'', AlertData)"

text \<open>
  The payload of \<open>commands/update_trusted\<close>: each of the two keys may be absent.
\<close>

record trust_update =
  personal :: "(string \<rightharpoonup> string list) option"
  public :: "(string \<rightharpoonup> string list) option"

definition UpdateTrustedCallback :: "trust_update \<Rightarrow> rogue_state \<Rightarrow> rogue_state" where
  "UpdateTrustedCallback Data st =
     (let st1 = (case personal Data of
                   None \<Rightarrow> st
                 | Some p \<Rightarrow> st\<lparr>PersonalTrusted := (\<lambda>k. map_option (map py_lower) (p k))\<rparr>)
      in case public Data of
           None \<Rightarrow> st1
         | Some p \<Rightarrow> st1\<lparr>PublicTrusted := (\<lambda>k. map_option (map GetPrefix) (p k))\<rparr>)"

text \<open>
  The SSID a beacon is classified under: the normalised text of its information element,
  or \<open><unknown>\<close> when reading it raises.
\<close>

definition beacon_ssid :: "packet \<Rightarrow> string" where
  "beacon_ssid Pkt = (case elt_info Pkt of None \<Rightarrow> ''<unknown>'' | Some SSIDRaw \<Rightarrow> NormaliseSSID SSIDRaw)"

definition DetectRogue :: "packet \<Rightarrow> rogue_state \<Rightarrow> message list \<times> rogue_state" where
  "DetectRogue Pkt st =
     (if has_Dot11Beacon Pkt then
        let SSID = beacon_ssid Pkt;
            BSSID = py_lower (addr2 Pkt)
        in case PersonalTrusted st SSID of
             Some AllowedBSSIDs \<Rightarrow>
               if BSSID \<notin> set AllowedBSSIDs then
                 if (SSID, BSSID) \<notin> AlertedRogues st then
                   ([PublishAlert [(''alert_type'', JStr ''rogue_ap''),
                                   (''network_type'', JStr ''personal''),
                                   (''ssid'', JStr SSID),
                                   (''detected_bssid'', JStr BSSID),
                                   (''expected'', JList AllowedBSSIDs)]],
                    st\<lparr>AlertedRogues := insert (SSID, BSSID) (AlertedRogues st)\<rparr>)
                 else ([], st)
               else ([], st)
           | None \<Rightarrow>
              (case PublicTrusted st SSID of
                 Some AllowedPrefixes \<Rightarrow>
                   let DetectedPrefix = GetPrefix BSSID
                   in if DetectedPrefix \<notin> set AllowedPrefixes then
                        if (SSID, BSSID) \<notin> AlertedRogues st then
                          ([PublishAlert [(''alert_type'', JStr ''rogue_ap''),
                                          (''network_type'', JStr ''public''),
                                          (''ssid'', JStr SSID),
                                          (''detected_bssid'', JStr BSSID),
                                          (''detected_prefix'', JStr DetectedPrefix),
                                          (''expected_prefixes'', JList AllowedPrefixes)]],
                           st\<lparr>AlertedRogues := insert (SSID, BSSID) (AlertedRogues st)\<rparr>)
                        else ([], st)
                      else ([], st)
               | None \<Rightarrow>
                   let CleanSSID = NormaliseSSID SSID
                   in if CleanSSID \<noteq> [] then
                        ([], st\<lparr>UnrecognisedSSIDs := insert CleanSSID (UnrecognisedSSIDs st)\<rparr>)
                      else ([], st))
      else ([], st))"

text \<open>
  What reaches the module while it runs: beacons handed to \<open>DetectRogue\<close> by the
  sniffing loop and trust updates delivered to \<open>UpdateTrustedCallback\<close>, in the order
  they take effect.
\<close>

datatype rogue_event = Beacon packet | UpdateTrusted trust_update

fun run_rogue :: "rogue_event list \<Rightarrow> rogue_state \<Rightarrow> message list \<times> rogue_state" where
  "run_rogue [] st = ([], st)"
| "run_rogue (Beacon p # evs) st =
     (let (out1, st1) = DetectRogue p st;
          (out2, st2) = run_rogue evs st1
      in (out1 @ out2, st2))"
| "run_rogue (UpdateTrusted d # evs) st = run_rogue evs (UpdateTrustedCallback d st)"

text \<open>
  The end of \<open>StartSniffing\<close>. \<open>sniff\<close> returns, is interrupted from the keyboard, or
  raises something else; in the last case the source calls \<open>sys.exit(1)\<close>.
  \<open>list(UnrecognisedSSIDs)\<close> enumerates a set in an order the runtime chooses:
  \<open>Listed\<close> is that enumeration, and \<open>py_list_of_set\<close> says what every enumeration
  satisfies.
\<close>

datatype sniff_end = SniffReturned | SniffKeyboardInterrupt | SniffException

datatype exit = SystemExit int

definition py_list_of_set :: "'a set \<Rightarrow> 'a list \<Rightarrow> bool" where
  "py_list_of_set S xs = (distinct xs \<and> set xs = S)"

definition StartSniffing ::
    "rogue_event list \<Rightarrow> sniff_end \<Rightarrow> string list \<Rightarrow> rogue_state \<Rightarrow> message list \<times> exit option" where
  "StartSniffing evs how Listed st =
     (let (out, st') = run_rogue evs st
      in case how of
           SniffException \<Rightarrow> (out, Some (SystemExit 1))
         | _ \<Rightarrow> (if UnrecognisedSSIDs st' \<noteq> {}
                then (out @ [PublishAlert [(''alert_type'', JStr ''unrecognised_aps''),
                                          (''ssids'', JList Listed)]], None)
                else (out, None)))"

section \<open>MQTTHelper.py: blocking\<close>

text \<open>
  The frame \<open>BlockRogueAP\<close> builds, and scapy's \<open>sendp\<close> as the injection primitive:
  it either returns (\<open>None\<close>) or raises (\<open>Some e\<close>).
\<close>

record injected_frame =
  inj_addr1 :: string
  inj_addr2 :: string
  inj_addr3 :: string
  inj_reason :: nat

datatype py_exception = Raised string

type_synonym sendp_fn = "injected_frame \<Rightarrow> string \<Rightarrow> int \<Rightarrow> py_exception option"

text \<open>
  \<open>BlockRogueAP\<close>: the result is \<open>Inl e\<close> when the exception \<open>e\<close> leaves the
  function, and the dictionary \<open>BLOCKED_BSSIDS\<close> afterwards. \<open>now\<close> is the reading of
  \<open>time.time()\<close> in the last line.
\<close>

definition BlockRogueAP ::
    "sendp_fn \<Rightarrow> real \<Rightarrow> string \<Rightarrow> string \<Rightarrow> int \<Rightarrow> (string \<rightharpoonup> real)
       \<Rightarrow> (py_exception + unit) \<times> (string \<rightharpoonup> real)" where
  "BlockRogueAP sendp now RogueBSSID Iface Count BLOCKED_BSSIDS =
     (let Pkt = \<lparr>inj_addr1 = ''ff:ff:ff:ff:ff:ff'', inj_addr2 = RogueBSSID,
                 inj_addr3 = RogueBSSID, inj_reason = 7\<rparr>
      in case sendp Pkt Iface Count of
           Some e \<Rightarrow> (Inl e, BLOCKED_BSSIDS)
         | None \<Rightarrow> (Inr (), BLOCKED_BSSIDS(RogueBSSID \<mapsto> now)))"

record block_command =
  target_bssid :: "string option"
  interface :: "string option"
  count :: "int option"

definition BlockCallback ::
    "sendp_fn \<Rightarrow> real \<Rightarrow> block_command \<Rightarrow> (string \<rightharpoonup> real)
       \<Rightarrow> (py_exception + unit) \<times> (string \<rightharpoonup> real)" where
  "BlockCallback sendp now Data BLOCKED_BSSIDS =
     (let Iface = (case interface Data of None \<Rightarrow> ''wlan1'' | Some i \<Rightarrow> i);
          Count = (case count Data of None \<Rightarrow> 10 | Some c \<Rightarrow> c)
      in case target_bssid Data of
           None \<Rightarrow> (Inr (), BLOCKED_BSSIDS)
         | Some TargetBSSID \<Rightarrow>
             if TargetBSSID \<noteq> [] then BlockRogueAP sendp now TargetBSSID Iface Count BLOCKED_BSSIDS
             else (Inr (), BLOCKED_BSSIDS))"

section \<open>Reading alerts, and example inputs\<close>

text \<open>
  The pair a rogue alert is about, as its payload carries it, and the same pair as
  \<open>AlertedRogues\<close> stores it.
\<close>

definition alert_pair :: "message \<Rightarrow> json option \<times> json option" where
  "alert_pair m = (map_of (snd m) ''ssid'', map_of (snd m) ''detected_bssid'')"

definition pair_json :: "string \<times> string \<Rightarrow> json option \<times> json option" where
  "pair_json p = (Some (JStr (fst p)), Some (JStr (snd p)))"




text \<open>A beacon with the given SSID text and sender address.\<close>

definition beacon_frame :: "string \<Rightarrow> string \<Rightarrow> packet" where
  "beacon_frame SSIDRaw BSSID = \<lparr>has_Dot11Deauth = False, has_Dot11Beacon = True,
       addr1 = ''ff:ff:ff:ff:ff:ff'', addr2 = BSSID, elt_info = Some SSIDRaw\<rparr>"

text \<open>
  Trust stores reached from the initial state by one update command, and a run of two
  beacons whose SSIDs are in neither mapping.
\<close>

definition cafe :: rogue_state where
  "cafe = UpdateTrustedCallback \<lparr>personal = None, public = Some [''CafeWifi'' \<mapsto> [''11:22:33:AA:BB:CC'']]\<rparr> init_rogue"

definition home :: rogue_state where
  "home = UpdateTrustedCallback \<lparr>personal = Some [''HomeNet'' \<mapsto> [''AA:BB:CC:DD:EE:FF'']], public = None\<rparr> init_rogue"

definition two_unknown :: "rogue_event list" where
  "two_unknown = [Beacon (beacon_frame ''Unknown1'' ''de:ad:be:ef:00:01''),
                  Beacon (beacon_frame ''Unknown2'' ''de:ad:be:ef:00:02'')]"

section \<open>Properties of the de-authentication flood detector\<close>

lemma set_first_seen: "set (first_seen xs) = set xs"
  by (induction xs rule: first_seen.induct) auto

lemma first_max_mem: "first_max best ps \<in> set (best # ps)"
  by (induction ps arbitrary: best) auto

lemma most_common_1_mem:
  assumes "xs \<noteq> []"
  shows "\<exists>p ps. most_common_1 xs = p # ps \<and> fst p \<in> set xs"
proof -
  from assms have "first_seen xs \<noteq> []" by (cases xs) auto
  then obtain q qs where q: "Counter_items xs = q # qs"
    by (cases "Counter_items xs") (auto simp: Counter_items_def)
  have "first_max q qs \<in> set (Counter_items xs)"
    using first_max_mem[of q qs] q by simp
  then have "fst (first_max q qs) \<in> set xs"
    by (auto simp: Counter_items_def set_first_seen)
  with q show ?thesis by (simp add: most_common_1_def)
qed

lemma most_common_1_single:
  assumes "xs \<noteq> []" "set xs \<subseteq> {a}"
  shows "(case most_common_1 xs of [] \<Rightarrow> u | p # ps \<Rightarrow> fst p) = a"
  using most_common_1_mem[OF assms(1)] assms(2) by auto



lemma filter_keep_all:
  assumes "\<forall>e\<in>set (window_of st D). now - fst e \<le> 5"
  shows "filter (\<lambda>(T, A). now - T \<le> real_of_int TimeWindow)
           ((case DeauthRecords st D of None \<Rightarrow> [] | Some r \<Rightarrow> r) @ [(now, a)])
         = window_of st D @ [(now, a)]"
proof -
  have "filter (\<lambda>(T, A). now - T \<le> real_of_int TimeWindow) (window_of st D) = window_of st D"
    using assms by (intro filter_True) (auto simp: TimeWindow_def)
  then show ?thesis by (simp add: TimeWindow_def window_of_def)
qed

lemma window_of_upd [simp]:
  "window_of (st\<lparr>DeauthRecords := (DeauthRecords st)(D \<mapsto> r)\<rparr>) D' = (if D' = D then r else window_of st D')"
  "window_of (st\<lparr>MaxDeauthCounts := m\<rparr>) D' = window_of st D'"
  "window_of (st\<lparr>LastAlertTime := l\<rparr>) D' = window_of st D'"
  by (simp_all add: window_of_def)

lemma step_window:
  assumes nb: "\<not> (case B A of None \<Rightarrow> False | Some T \<Rightarrow> now - T < 30)"
    and fresh: "\<forall>e\<in>set (window_of st D). now - fst e \<le> 5"
  shows "window_of (snd (DetectDeauth B now stamp (deauth_frame D A) st)) D
           = window_of st D @ [(now, A)]"
  using nb
  by (simp add: DetectDeauth_def deauth_frame_def Let_def filter_keep_all[OF fresh] del: filter_append)

lemma step_quiet:
  assumes nb: "\<not> (case B A of None \<Rightarrow> False | Some T \<Rightarrow> now - T < 30)"
    and fresh: "\<forall>e\<in>set (window_of st D). now - fst e \<le> 5"
    and small: "Suc (length (window_of st D)) < Threshold"
  shows "fst (DetectDeauth B now stamp (deauth_frame D A) st) = []"
    and "LastAlertTime (snd (DetectDeauth B now stamp (deauth_frame D A) st)) D = None"
  using nb small
  by (simp_all add: DetectDeauth_def deauth_frame_def Let_def filter_keep_all[OF fresh] del: filter_append)

lemma step_loud:
  assumes nb: "\<not> (case B A of None \<Rightarrow> False | Some T \<Rightarrow> now - T < 30)"
    and fresh: "\<forall>e\<in>set (window_of st D). now - fst e \<le> 5"
    and big: "Threshold \<le> Suc (length (window_of st D))"
    and same: "snd ` set (window_of st D) \<subseteq> {A}"
  shows "fst (DetectDeauth B now stamp (deauth_frame D A) st) =
           (if (case LastAlertTime st D of None \<Rightarrow> True | Some L \<Rightarrow> 1 \<le> now - L)
            then [PublishDeauthAlert stamp D (Suc (length (window_of st D))) A
                    (case MaxDeauthCounts st D of None \<Rightarrow> Suc (length (window_of st D))
                     | Some m \<Rightarrow> if m < Suc (length (window_of st D)) then Suc (length (window_of st D)) else m)]
            else [])"
    and "LastAlertTime (snd (DetectDeauth B now stamp (deauth_frame D A) st)) D =
           (if (case LastAlertTime st D of None \<Rightarrow> True | Some L \<Rightarrow> 1 \<le> now - L)
            then Some now else LastAlertTime st D)"
proof -
  let ?w = "window_of st D @ [(now, A)]"
  have mc: "(case most_common_1 (map snd ?w) of [] \<Rightarrow> ''Unknown'' | p # ps \<Rightarrow> fst p) = A"
    using same by (intro most_common_1_single) auto
  show "fst (DetectDeauth B now stamp (deauth_frame D A) st) =
           (if (case LastAlertTime st D of None \<Rightarrow> True | Some L \<Rightarrow> 1 \<le> now - L)
            then [PublishDeauthAlert stamp D (Suc (length (window_of st D))) A
                    (case MaxDeauthCounts st D of None \<Rightarrow> Suc (length (window_of st D))
                     | Some m \<Rightarrow> if m < Suc (length (window_of st D)) then Suc (length (window_of st D)) else m)]
            else [])"
    using nb big
    by (simp add: DetectDeauth_def deauth_frame_def Let_def filter_keep_all[OF fresh] mc
             del: filter_append map_append cong: option.case_cong if_cong)
  show "LastAlertTime (snd (DetectDeauth B now stamp (deauth_frame D A) st)) D =
           (if (case LastAlertTime st D of None \<Rightarrow> True | Some L \<Rightarrow> 1 \<le> now - L)
            then Some now else LastAlertTime st D)"
    using nb big
    by (simp add: DetectDeauth_def deauth_frame_def Let_def filter_keep_all[OF fresh]
             del: filter_append map_append)
qed


lemma step_loud_ex:
  assumes nb: "\<not> (case B A of None \<Rightarrow> False | Some T \<Rightarrow> now - T < 30)"
    and fresh: "\<forall>e\<in>set (window_of st D). now - fst e \<le> 5"
    and big: "Threshold \<le> Suc (length (window_of st D))"
    and same: "snd ` set (window_of st D) \<subseteq> {A}"
  shows "\<exists>mx. fst (DetectDeauth B now stamp (deauth_frame D A) st) =
           (if (case LastAlertTime st D of None \<Rightarrow> True | Some L \<Rightarrow> 1 \<le> now - L)
            then [PublishDeauthAlert stamp D (Suc (length (window_of st D))) A mx]
            else [])"
  using step_loud(1)[where B=B and A=A, OF nb fresh big same] by blast

lemma cooldown_over_conv:
  "(\<not> (case m of None \<Rightarrow> False | Some T \<Rightarrow> now - T < (30::real))) = (\<forall>T. m = Some T \<longrightarrow> 30 \<le> now - T)"
  by (cases m) auto

lemma sniff_deauth_append:
  "sniff_deauth B (xs @ ys) st =
     (let (o1, s1) = sniff_deauth B xs st; (o2, s2) = sniff_deauth B ys s1 in (o1 @ o2, s2))"
  by (induction xs arbitrary: st) (auto split: prod.splits)

lemma quiet_prefix:
  assumes "\<forall>f\<in>set fs. snd (snd f) = deauth_frame D A"
    and "\<forall>f\<in>set fs. \<forall>T. B A = Some T \<longrightarrow> 30 \<le> fst f - T"
    and "\<forall>f\<in>set fs. \<forall>e\<in>set (window_of st D). fst f - fst e \<le> 5"
    and "\<forall>f\<in>set fs. \<forall>g\<in>set fs. fst f - fst g \<le> 5"
    and "length (window_of st D) + length fs < Threshold"
  shows "fst (sniff_deauth B fs st) = [] \<and>
         window_of (snd (sniff_deauth B fs st)) D = window_of st D @ map (\<lambda>f. (fst f, A)) fs \<and>
         (fs \<noteq> [] \<longrightarrow> LastAlertTime (snd (sniff_deauth B fs st)) D = None)"
  using assms
proof (induction fs arbitrary: st)
  case Nil
  then show ?case by simp
next
  case (Cons f fs)
  obtain t stamp p where f: "f = (t, stamp, p)" by (cases f) auto
  from Cons.prems(1) f have p: "p = deauth_frame D A" by simp
  let ?r = "DetectDeauth B t stamp (deauth_frame D A) st"
  have nb: "\<not> (case B A of None \<Rightarrow> False | Some T \<Rightarrow> t - T < 30)"
    using Cons.prems(2) f by (simp add: cooldown_over_conv)
  have fresh: "\<forall>e\<in>set (window_of st D). t - fst e \<le> 5"
    using Cons.prems(3) f by simp
  have small: "Suc (length (window_of st D)) < Threshold"
    using Cons.prems(5) by simp
  have w1: "window_of (snd ?r) D = window_of st D @ [(t, A)]"
    by (rule step_window[where B=B and A=A, OF nb fresh])
  have q1: "fst ?r = []" and l1: "LastAlertTime (snd ?r) D = None"
    using step_quiet[where B=B and A=A, OF nb fresh small] by simp_all
  have ih: "fst (sniff_deauth B fs (snd ?r)) = [] \<and>
         window_of (snd (sniff_deauth B fs (snd ?r))) D
           = window_of (snd ?r) D @ map (\<lambda>f. (fst f, A)) fs \<and>
         (fs \<noteq> [] \<longrightarrow> LastAlertTime (snd (sniff_deauth B fs (snd ?r))) D = None)"
  proof (rule Cons.IH)
    show "\<forall>f\<in>set fs. snd (snd f) = deauth_frame D A" using Cons.prems(1) by simp
    show "\<forall>f\<in>set fs. \<forall>T. B A = Some T \<longrightarrow> 30 \<le> fst f - T"
      using Cons.prems(2) by simp
    show "\<forall>f\<in>set fs. \<forall>e\<in>set (window_of (snd ?r) D). fst f - fst e \<le> 5"
      using Cons.prems(3,4) f by (auto simp: w1)
    show "\<forall>f\<in>set fs. \<forall>g\<in>set fs. fst f - fst g \<le> 5" using Cons.prems(4) by simp
    show "length (window_of (snd ?r) D) + length fs < Threshold"
      using Cons.prems(5) by (simp add: w1)
  qed
  have unfold: "sniff_deauth B (f # fs) st =
                  (fst ?r @ fst (sniff_deauth B fs (snd ?r)), snd (sniff_deauth B fs (snd ?r)))"
    by (simp add: f p split: prod.splits)
  have tf: "fst f = t" using f by simp
  show ?case unfolding unfold using q1 l1 w1 ih by (auto simp: tf)
qed


lemma sniff_deauth_single:
  "sniff_deauth B [(t, stamp, p)] st = DetectDeauth B t stamp p st"
  by (simp split: prod.splits)

lemma burst16:
  assumes len: "length fs = 16"
    and frames: "\<forall>f\<in>set fs. snd (snd f) = deauth_frame D A"
    and span: "\<forall>f\<in>set fs. \<forall>g\<in>set fs. fst f - fst g \<le> 4"
    and unblocked: "\<forall>f\<in>set fs. \<forall>T. B A = Some T \<longrightarrow> 30 \<le> fst f - T"
    and empty: "window_of st D = []"
  shows "\<exists>mx mx'.
         fst (sniff_deauth B (take 14 fs) st) = [] \<and>
         fst (sniff_deauth B (take 15 fs) st)
                 = [PublishDeauthAlert (fst (snd (fs ! 14))) D 15 A mx] \<and>
         fst (sniff_deauth B fs st)
                 = PublishDeauthAlert (fst (snd (fs ! 14))) D 15 A mx #
                   (if 1 \<le> fst (fs ! 15) - fst (fs ! 14)
                    then [PublishDeauthAlert (fst (snd (fs ! 15))) D 16 A mx'] else [])"
proof -
  let ?p = "take 14 fs"
  let ?s14 = "snd (sniff_deauth B ?p st)"
  have sub: "set ?p \<subseteq> set fs" by (rule set_take_subset)
  have span5: "\<forall>f\<in>set fs. \<forall>g\<in>set fs. fst f - fst g \<le> 5"
    using span by fastforce
  have lp: "length ?p = 14" using len by simp
  have q: "fst (sniff_deauth B ?p st) = [] \<and>
         window_of ?s14 D = window_of st D @ map (\<lambda>f. (fst f, A)) ?p \<and>
         (?p \<noteq> [] \<longrightarrow> LastAlertTime ?s14 D = None)"
  proof (rule quiet_prefix)
    show "\<forall>f\<in>set ?p. snd (snd f) = deauth_frame D A" using frames sub by blast
    show "\<forall>f\<in>set ?p. \<forall>T. B A = Some T \<longrightarrow> 30 \<le> fst f - T" using unblocked sub by blast
    show "\<forall>f\<in>set ?p. \<forall>e\<in>set (window_of st D). fst f - fst e \<le> 5" by (simp add: empty)
    show "\<forall>f\<in>set ?p. \<forall>g\<in>set ?p. fst f - fst g \<le> 5" using span5 sub by blast
    show "length (window_of st D) + length ?p < Threshold" by (simp add: empty lp Threshold_def)
  qed
  have pne: "?p \<noteq> []" using lp by auto
  have o14: "fst (sniff_deauth B ?p st) = []" using q by simp
  have w14: "window_of ?s14 D = map (\<lambda>f. (fst f, A)) ?p" using q by (simp add: empty)
  have l14: "LastAlertTime ?s14 D = None" using q pne by simp
  have m15: "fs ! 14 \<in> set fs" and m16: "fs ! 15 \<in> set fs" using len by simp_all
  obtain t15 s15 p15 where f15': "fs ! 14 = (t15, s15, p15)" by (cases "fs ! 14") auto
  obtain t16 s16 p16 where f16': "fs ! 15 = (t16, s16, p16)" by (cases "fs ! 15") auto
  have "snd (snd (fs ! 14)) = deauth_frame D A" using frames m15 by blast
  then have f15: "fs ! 14 = (t15, s15, deauth_frame D A)" using f15' by simp
  have "snd (snd (fs ! 15)) = deauth_frame D A" using frames m16 by blast
  then have f16: "fs ! 15 = (t16, s16, deauth_frame D A)" using f16' by simp
  let ?r15 = "DetectDeauth B t15 s15 (deauth_frame D A) ?s14"
  have nb15: "\<not> (case B A of None \<Rightarrow> False | Some T \<Rightarrow> t15 - T < 30)"
    using unblocked m15 f15 unfolding cooldown_over_conv by fastforce
  have nb16: "\<not> (case B A of None \<Rightarrow> False | Some T \<Rightarrow> t16 - T < 30)"
    using unblocked m16 f16 unfolding cooldown_over_conv by fastforce
  have fresh15: "\<forall>e\<in>set (window_of ?s14 D). t15 - fst e \<le> 5"
    using span5 m15 f15 sub by (fastforce simp: w14)
  have same14: "snd ` set (window_of ?s14 D) \<subseteq> {A}" by (auto simp: w14)
  have big15: "Threshold \<le> Suc (length (window_of ?s14 D))"
    by (simp add: w14 len Threshold_def)
  have w15: "window_of (snd ?r15) D = map (\<lambda>f. (fst f, A)) ?p @ [(t15, A)]"
    using step_window[where B=B and A=A, OF nb15 fresh15] by (simp add: w14)
  obtain mx where o15: "fst ?r15 = [PublishDeauthAlert s15 D 15 A mx]"
    using step_loud_ex[where B=B and A=A, OF nb15 fresh15 big15 same14, of s15]
    by (auto simp: l14 w14 len)
  have l15: "LastAlertTime (snd ?r15) D = Some t15"
    using step_loud(2)[where B=B and A=A, OF nb15 fresh15 big15 same14] by (simp add: l14)
  let ?r16 = "DetectDeauth B t16 s16 (deauth_frame D A) (snd ?r15)"
  have fresh16: "\<forall>e\<in>set (window_of (snd ?r15) D). t16 - fst e \<le> 5"
    using span5 m15 m16 f15 f16 sub by (fastforce simp: w15)
  have same15: "snd ` set (window_of (snd ?r15) D) \<subseteq> {A}" by (auto simp: w15)
  have big16: "Threshold \<le> Suc (length (window_of (snd ?r15) D))"
    by (simp add: w15 len Threshold_def)
  have n16: "Suc (length (window_of (snd ?r15) D)) = 16" by (simp add: w15 len)
  have "\<exists>mx'. fst ?r16 = (if 1 \<le> t16 - t15 then [PublishDeauthAlert s16 D 16 A mx'] else [])"
    using step_loud_ex[where B=B and A=A, OF nb16 fresh16 big16 same15, of s16]
    unfolding n16 l15 by simp
  then obtain mx' where o16: "fst ?r16 = (if 1 \<le> t16 - t15 then [PublishDeauthAlert s16 D 16 A mx'] else [])"
    by blast
  have t15: "take 15 fs = ?p @ [(t15, s15, deauth_frame D A)]"
    using take_Suc_conv_app_nth[of 14 fs] len f15 by simp
  have all: "fs = take 15 fs @ [(t16, s16, deauth_frame D A)]"
    using take_Suc_conv_app_nth[of 15 fs] len f16 by simp
  have r15: "sniff_deauth B (take 15 fs) st = (fst ?r15, snd ?r15)"
    unfolding t15 sniff_deauth_append sniff_deauth_single using o14
    by (simp add: case_prod_beta)
  have "sniff_deauth B (take 15 fs @ [(t16, s16, deauth_frame D A)]) st
          = (fst ?r15 @ fst ?r16, snd ?r16)"
    unfolding sniff_deauth_append sniff_deauth_single r15
    by (simp add: case_prod_beta)
  moreover have "sniff_deauth B fs st = sniff_deauth B (take 15 fs @ [(t16, s16, deauth_frame D A)]) st"
    by (rule arg_cong[OF all, of "\<lambda>z. sniff_deauth B z st"])
  ultimately have r16: "fst (sniff_deauth B fs st) = fst ?r15 @ fst ?r16"
    by simp
  have c2: "fst (sniff_deauth B (take 15 fs) st) = [PublishDeauthAlert (fst (snd (fs ! 14))) D 15 A mx]"
    by (simp add: r15 o15 f15)
  have c3: "fst (sniff_deauth B fs st)
                 = PublishDeauthAlert (fst (snd (fs ! 14))) D 15 A mx #
                   (if 1 \<le> fst (fs ! 15) - fst (fs ! 14)
                    then [PublishDeauthAlert (fst (snd (fs ! 15))) D 16 A mx'] else [])"
    by (simp add: r16 o15 o16 f15 f16)
  show ?thesis
    using o14 c2 c3 by blast
qed


text \<open>
  Claim C1, as the code has it. Sixteen de-authentication frames for destination \<open>D\<close>
  from attacker \<open>A\<close>, timestamps within a span of 4 seconds, \<open>A\<close> not in block cooldown,
  the window of \<open>D\<close> empty before the burst: the first fourteen frames publish nothing,
  the fifteenth publishes one \<open>deauth_attack\<close> alert, and the sixteenth publishes a
  second one exactly when it arrives at least one second after the fifteenth. Every
  alert of the burst names \<open>D\<close> as destination and \<open>A\<close> as most frequent attacker.
\<close>

theorem deauth_burst_alerts:
  assumes "length fs = 16"
    and "\<forall>f\<in>set fs. snd (snd f) = deauth_frame D A"
    and "\<forall>f\<in>set fs. \<forall>g\<in>set fs. fst f - fst g \<le> 4"
    and "\<forall>f\<in>set fs. \<forall>T. B A = Some T \<longrightarrow> 30 \<le> fst f - T"
    and "window_of st D = []"
  shows "fst (sniff_deauth B (take 14 fs) st) = [] \<and>
         length (fst (sniff_deauth B (take 15 fs) st)) = 1 \<and>
         length (fst (sniff_deauth B fs st)) = (if 1 \<le> fst (fs ! 15) - fst (fs ! 14) then 2 else 1) \<and>
         (\<forall>m\<in>set (fst (sniff_deauth B fs st)).
             fst m = ''alerts/deauth'' \<and>
             map_of (snd m) ''alert_type'' = Some (JStr ''deauth_attack'') \<and>
             map_of (snd m) ''destination'' = Some (JStr D) \<and>
             map_of (snd m) ''most_frequent_attacker'' = Some (JStr A))"
proof -
  from burst16[where B=B and A=A and D=D and fs=fs and st=st, OF assms] obtain mx mx' where
    a: "fst (sniff_deauth B (take 14 fs) st) = []"
    and b: "fst (sniff_deauth B (take 15 fs) st) = [PublishDeauthAlert (fst (snd (fs ! 14))) D 15 A mx]"
    and c: "fst (sniff_deauth B fs st)
                 = PublishDeauthAlert (fst (snd (fs ! 14))) D 15 A mx #
                   (if 1 \<le> fst (fs ! 15) - fst (fs ! 14)
                    then [PublishDeauthAlert (fst (snd (fs ! 15))) D 16 A mx'] else [])"
    by blast
  have d: "\<And>s n m. fst (PublishDeauthAlert s D n A m) = ''alerts/deauth'' \<and>
             map_of (snd (PublishDeauthAlert s D n A m)) ''alert_type'' = Some (JStr ''deauth_attack'') \<and>
             map_of (snd (PublishDeauthAlert s D n A m)) ''destination'' = Some (JStr D) \<and>
             map_of (snd (PublishDeauthAlert s D n A m)) ''most_frequent_attacker'' = Some (JStr A)"
    by (simp add: PublishDeauthAlert_def)
  show ?thesis
    unfolding a b c using d by simp
qed

theorem deauth_burst_alerts_witness:
  "length (replicate 8 (0, ''t'', deauth_frame ''d'' ''a'') @ replicate 8 (1 / 2, ''t'', deauth_frame ''d'' ''a'')) = 16 \<and>
   window_of init_deauth ''d'' = [] \<and>
   length (fst (sniff_deauth Map.empty
      (replicate 8 (0, ''t'', deauth_frame ''d'' ''a'') @ replicate 8 (1 / 2, ''t'', deauth_frame ''d'' ''a''))
      init_deauth)) = 1"
  using deauth_burst_alerts[of "replicate 8 (0, ''t'', deauth_frame ''d'' ''a'') @ replicate 8 (1 / 2, ''t'', deauth_frame ''d'' ''a'')"
      "''d''" "''a''" Map.empty init_deauth]
  by (simp add: window_of_def init_deauth_def nth_append)

text \<open>
  Claim C1 as stated (exactly one alert in the burst) fails: fifteen frames at time 0
  and a sixteenth at time 2 lie within 4 seconds and publish two alerts.
\<close>

theorem deauth_burst_two_alerts_counterexample:
  "length (replicate 15 (0, ''t'', deauth_frame ''d'' ''a'') @ [(2, ''t'', deauth_frame ''d'' ''a'')]) = 16 \<and>
   length (fst (sniff_deauth Map.empty
      (replicate 15 (0, ''t'', deauth_frame ''d'' ''a'') @ [(2, ''t'', deauth_frame ''d'' ''a'')])
      init_deauth)) = 2"
  using burst16[of "replicate 15 (0, ''t'', deauth_frame ''d'' ''a'') @ [(2, ''t'', deauth_frame ''d'' ''a'')]"
      "''d''" "''a''" Map.empty init_deauth]
  by (auto simp add: window_of_def init_deauth_def nth_append)

text \<open>
  Claim C2, as the code has it. After a call of \<open>DetectDeauth\<close> on a de-authentication
  frame whose sender is not in block cooldown, the window of the frame's destination
  holds exactly the former entries and the new one whose age relative to the frame's
  timestamp is at most 5 seconds (the test is inclusive); an entry with a later timestamp
  than the frame (negative age) is kept; the windows of all other destinations are as
  they were.
\<close>

theorem window_after_observe:
  assumes "has_Dot11Deauth Pkt"
    and "\<forall>T. B (addr2 Pkt) = Some T \<longrightarrow> 30 \<le> now - T"
    and "st' = snd (DetectDeauth B now stamp Pkt st)"
  shows "set (window_of st' (addr1 Pkt))
           = {e \<in> set (window_of st (addr1 Pkt)) \<union> {(now, addr2 Pkt)}. now - fst e \<le> 5} \<and>
         (\<forall>e\<in>set (window_of st (addr1 Pkt)). now < fst e \<longrightarrow> e \<in> set (window_of st' (addr1 Pkt))) \<and>
         (\<forall>D. D \<noteq> addr1 Pkt \<longrightarrow> window_of st' D = window_of st D)"
proof -
  have nb: "\<not> (case B (addr2 Pkt) of None \<Rightarrow> False | Some T \<Rightarrow> now - T < 30)"
    using assms(2) by (simp add: cooldown_over_conv)
  have w: "window_of st' (addr1 Pkt) =
             filter (\<lambda>(T, A). now - T \<le> 5) (window_of st (addr1 Pkt) @ [(now, addr2 Pkt)])"
    using assms(1) nb unfolding assms(3)
    by (simp add: DetectDeauth_def Let_def TimeWindow_def window_of_def)
  have o: "\<forall>D. D \<noteq> addr1 Pkt \<longrightarrow> window_of st' D = window_of st D"
    using assms(1) nb unfolding assms(3)
    by (simp add: DetectDeauth_def Let_def window_of_def)
  show ?thesis unfolding w using o by auto
qed

theorem window_after_observe_witness:
  "window_of (snd (DetectDeauth Map.empty 7 ''t'' (deauth_frame ''d'' ''a'')
       \<lparr>DeauthRecords = [''d'' \<mapsto> [(0, ''x''), (3, ''y''), (20, ''z'')]],
        MaxDeauthCounts = Map.empty, LastAlertTime = Map.empty\<rparr>)) ''d''
     = [(3, ''y''), (20, ''z''), (7, ''a'')] \<and>
   (20, ''z'') \<in> set (window_of (snd (DetectDeauth Map.empty 7 ''t'' (deauth_frame ''d'' ''a'')
       \<lparr>DeauthRecords = [''d'' \<mapsto> [(0, ''x''), (3, ''y''), (20, ''z'')]],
        MaxDeauthCounts = Map.empty, LastAlertTime = Map.empty\<rparr>)) ''d'')"
  using window_after_observe[of "deauth_frame ''d'' ''a''" Map.empty 7 _ "''t''"
       "\<lparr>DeauthRecords = [''d'' \<mapsto> [(0, ''x''), (3, ''y''), (20, ''z'')]],
        MaxDeauthCounts = Map.empty, LastAlertTime = Map.empty\<rparr>"]
  by (simp add: DetectDeauth_def deauth_frame_def Let_def TimeWindow_def window_of_def Threshold_def)

text \<open>
  Claim C2 as stated (after every call, for every destination) fails. A frame at time 0
  for \<open>d\<close>, then a frame at time 10 from a sender blocked at time 8: the call returns
  early and the window of \<open>d\<close> still holds the entry of age 10. Likewise a frame at
  time 10 for another destination leaves the window of \<open>d\<close> unpruned.
\<close>

theorem stale_window_counterexample:
  "window_of (snd (DetectDeauth [''a'' \<mapsto> 8] 10 ''t'' (deauth_frame ''d'' ''a'')
      (snd (DetectDeauth Map.empty 0 ''t'' (deauth_frame ''d'' ''a'') init_deauth)))) ''d''
     = [(0, ''a'')] \<and>
   window_of (snd (DetectDeauth Map.empty 10 ''t'' (deauth_frame ''e'' ''a'')
      (snd (DetectDeauth Map.empty 0 ''t'' (deauth_frame ''d'' ''a'') init_deauth)))) ''d''
     = [(0, ''a'')] \<and>
   \<not> (10 - fst (0::real, ''a'') \<le> 5)"
  by (simp add: DetectDeauth_def deauth_frame_def Let_def TimeWindow_def window_of_def
        Threshold_def init_deauth_def)

text \<open>
  Claim C3. With a block record for \<open>A\<close> at time \<open>T\<close>, a de-authentication frame from
  \<open>A\<close> at a time in \<open>[T, T + 30)\<close> publishes nothing and leaves the whole state as it
  was; a frame from \<open>A\<close> at or after \<open>T + 30\<close> is processed exactly as if \<open>A\<close> had no
  block record, and its entry is in the destination's window afterwards.
\<close>

theorem blocked_attacker_ignored:
  assumes "has_Dot11Deauth Pkt"
    and "addr2 Pkt = A"
    and "B A = Some T"
    and "T \<le> t1" and "t1 < T + 30"
    and "T + 30 \<le> t2"
  shows "DetectDeauth B t1 stamp Pkt st = ([], st) \<and>
         DetectDeauth B t2 stamp Pkt st = DetectDeauth (B(A := None)) t2 stamp Pkt st \<and>
         (t2, A) \<in> set (window_of (snd (DetectDeauth B t2 stamp Pkt st)) (addr1 Pkt))"
  using assms
  by (simp add: DetectDeauth_def Let_def TimeWindow_def window_of_def)

theorem blocked_attacker_ignored_witness:
  "DetectDeauth [''a'' \<mapsto> 100] (259 / 2) ''t'' (deauth_frame ''d'' ''a'') init_deauth = ([], init_deauth) \<and>
   (130, ''a'') \<in> set (window_of (snd (DetectDeauth [''a'' \<mapsto> 100] 130 ''t'' (deauth_frame ''d'' ''a'') init_deauth)) ''d'')"
  using blocked_attacker_ignored[of "deauth_frame ''d'' ''a''" "''a''" "[''a'' \<mapsto> 100]" 100
      "259 / 2" 130 "''t''" init_deauth]
  by (simp add: deauth_frame_def DetectDeauth_def Let_def TimeWindow_def window_of_def
        Threshold_def init_deauth_def)

section \<open>Properties of the rogue access point classifier, the trust store and blocking\<close>

text \<open>
  \<open>NormaliseSSID\<close> on text with white space beyond ASCII at both ends: a no-break
  space in front, an em space and a space behind; and with a NUL, a next-line character
  and an ideographic space around text that itself holds a two-byte character.
\<close>

lemma eval_normalise_unicode_space:
  "NormaliseSSID ([CHR 0xC2, CHR 0xA0] @ ''Cafe'' @ [CHR 0xE2, CHR 0x80, CHR 0x83, CHR 0x20]) = ''Cafe''"
  "NormaliseSSID ([CHR 0x00, CHR 0xC2, CHR 0x85, CHR 0x20] @ ''Caf'' @ [CHR 0xC3, CHR 0xA9]
                    @ [CHR 0xE3, CHR 0x80, CHR 0x80, CHR 0x1F])
     = ''Caf'' @ [CHR 0xC3, CHR 0xA9]"
  by code_simp+

text \<open>
  Claim C4, as the code has it. For a beacon whose normalised SSID is a key of the
  public mapping and not of the personal one: if the prefix of the lower-cased BSSID is
  among the stored prefixes, or an alert for this (SSID, BSSID) pair was published
  before, nothing is published; otherwise exactly one \<open>rogue_ap\<close> alert with
  \<open>network_type\<close> public is published, carrying the detected prefix and the list of
  allowed prefixes.
\<close>

theorem public_prefix_classification:
  assumes "has_Dot11Beacon Pkt"
    and "PersonalTrusted st (beacon_ssid Pkt) = None"
    and "PublicTrusted st (beacon_ssid Pkt) = Some AllowedPrefixes"
  shows "fst (DetectRogue Pkt st) =
     (if GetPrefix (py_lower (addr2 Pkt)) \<in> set AllowedPrefixes
         \<or> (beacon_ssid Pkt, py_lower (addr2 Pkt)) \<in> AlertedRogues st
      then []
      else [(''alerts/rogue_ap'',
             [(''alert_type'', JStr ''rogue_ap''),
              (''network_type'', JStr ''public''),
              (''ssid'', JStr (beacon_ssid Pkt)),
              (''detected_bssid'', JStr (py_lower (addr2 Pkt))),
              (''detected_prefix'', JStr (GetPrefix (py_lower (addr2 Pkt)))),
              (''expected_prefixes'', JList AllowedPrefixes)])])"
  using assms by (simp add: DetectRogue_def Let_def PublishAlert_def)

lemma eval_cafe_ssid: "beacon_ssid (beacon_frame ''CafeWifi'' b) = ''CafeWifi''"
  unfolding beacon_ssid_def beacon_frame_def by code_simp

lemma eval_cafe_prefix: "GetPrefix (py_lower ''11:22:33:99:99:99'') = ''11:22:33''"
  "GetPrefix (py_lower ''44:55:66:99:99:99'') = ''44:55:66''"
  "GetPrefix ''11:22:33:AA:BB:CC'' = ''11:22:33''"
  "py_lower ''44:55:66:99:99:99'' = ''44:55:66:99:99:99''"
  "py_lower ''11:22:33:99:99:99'' = ''11:22:33:99:99:99''"
  "GetPrefix ''11:22:33:99:99:99'' = ''11:22:33''"
  "GetPrefix ''44:55:66:99:99:99'' = ''44:55:66''"
  by code_simp+

lemma beacon_frame_sel:
  "has_Dot11Beacon (beacon_frame s b) = True"
  "addr2 (beacon_frame s b) = b"
  by (simp_all add: beacon_frame_def)

lemma cafe_simps:
  "PersonalTrusted cafe = Map.empty"
  "PublicTrusted cafe ''CafeWifi'' = Some [''11:22:33'']"
  "AlertedRogues cafe = {}"
  by (simp_all add: cafe_def UpdateTrustedCallback_def init_rogue_def eval_cafe_prefix)

theorem public_prefix_classification_witness:
  "fst (DetectRogue (beacon_frame ''CafeWifi'' ''11:22:33:99:99:99'') cafe) = [] \<and>
   fst (DetectRogue (beacon_frame ''CafeWifi'' ''44:55:66:99:99:99'') cafe) =
     [(''alerts/rogue_ap'',
       [(''alert_type'', JStr ''rogue_ap''),
        (''network_type'', JStr ''public''),
        (''ssid'', JStr ''CafeWifi''),
        (''detected_bssid'', JStr ''44:55:66:99:99:99''),
        (''detected_prefix'', JStr ''44:55:66''),
        (''expected_prefixes'', JList [''11:22:33''])])]"
  using public_prefix_classification[of "beacon_frame ''CafeWifi'' ''11:22:33:99:99:99''" cafe "[''11:22:33'']"]
        public_prefix_classification[of "beacon_frame ''CafeWifi'' ''44:55:66:99:99:99''" cafe "[''11:22:33'']"]
  by (simp add: eval_cafe_ssid eval_cafe_prefix cafe_simps beacon_frame_sel)

text \<open>
  Claim C4 as stated (a mismatching prefix always publishes an alert) fails: the second
  of two identical beacons with prefix 44:55:66 against the allowed prefix 11:22:33
  publishes nothing.
\<close>

theorem repeated_public_rogue_counterexample:
  "GetPrefix (py_lower ''44:55:66:99:99:99'') \<notin> set [''11:22:33''] \<and>
   PersonalTrusted cafe ''CafeWifi'' = None \<and>
   PublicTrusted cafe ''CafeWifi'' = Some [''11:22:33''] \<and>
   length (fst (DetectRogue (beacon_frame ''CafeWifi'' ''44:55:66:99:99:99'') cafe)) = 1 \<and>
   fst (DetectRogue (beacon_frame ''CafeWifi'' ''44:55:66:99:99:99'')
          (snd (DetectRogue (beacon_frame ''CafeWifi'' ''44:55:66:99:99:99'') cafe))) = []"
  by (simp add: DetectRogue_def Let_def eval_cafe_ssid eval_cafe_prefix cafe_simps beacon_frame_sel)


lemma DetectRogue_cases:
  "(fst (DetectRogue p st) = [] \<and> AlertedRogues (snd (DetectRogue p st)) = AlertedRogues st) \<or>
   (\<exists>m. fst (DetectRogue p st) = [m] \<and>
        alert_pair m = pair_json (beacon_ssid p, py_lower (addr2 p)) \<and>
        map_of (snd m) ''alert_type'' = Some (JStr ''rogue_ap'') \<and>
        map_of (snd m) ''ssids'' = None \<and>
        (beacon_ssid p, py_lower (addr2 p)) \<notin> AlertedRogues st \<and>
        AlertedRogues (snd (DetectRogue p st))
          = insert (beacon_ssid p, py_lower (addr2 p)) (AlertedRogues st))"
  by (simp add: DetectRogue_def Let_def PublishAlert_def alert_pair_def pair_json_def
           split: option.splits)

lemma UpdateTrustedCallback_keeps:
  "AlertedRogues (UpdateTrustedCallback d st) = AlertedRogues st"
  "UnrecognisedSSIDs (UpdateTrustedCallback d st) = UnrecognisedSSIDs st"
  by (simp_all add: UpdateTrustedCallback_def split: option.splits)

lemma inj_pair_json: "inj pair_json"
  by (auto simp: inj_on_def pair_json_def prod_eq_iff)

lemma run_rogue_Beacon:
  "run_rogue (Beacon p # evs) st =
     (fst (DetectRogue p st) @ fst (run_rogue evs (snd (DetectRogue p st))),
      snd (run_rogue evs (snd (DetectRogue p st))))"
  by (simp add: case_prod_beta)

lemma run_rogue_dedup:
  "distinct (map alert_pair (fst (run_rogue evs st))) \<and>
   set (map alert_pair (fst (run_rogue evs st))) \<inter> pair_json ` AlertedRogues st = {} \<and>
   pair_json ` AlertedRogues (snd (run_rogue evs st))
     = pair_json ` AlertedRogues st \<union> set (map alert_pair (fst (run_rogue evs st)))"
proof (induction evs arbitrary: st)
  case Nil
  then show ?case by simp
next
  case (Cons e evs)
  show ?case
  proof (cases e)
    case (Beacon p)
    let ?s1 = "snd (DetectRogue p st)"
    note ih = Cons.IH[of ?s1]
    from DetectRogue_cases[of p st] show ?thesis
    proof
      assume "fst (DetectRogue p st) = [] \<and> AlertedRogues ?s1 = AlertedRogues st"
      then show ?thesis using ih unfolding Beacon run_rogue_Beacon by simp
    next
      assume "\<exists>m. fst (DetectRogue p st) = [m] \<and>
          alert_pair m = pair_json (beacon_ssid p, py_lower (addr2 p)) \<and>
          map_of (snd m) ''alert_type'' = Some (JStr ''rogue_ap'') \<and>
          map_of (snd m) ''ssids'' = None \<and>
          (beacon_ssid p, py_lower (addr2 p)) \<notin> AlertedRogues st \<and>
          AlertedRogues ?s1 = insert (beacon_ssid p, py_lower (addr2 p)) (AlertedRogues st)"
      then obtain m where m: "fst (DetectRogue p st) = [m]"
        and pm: "alert_pair m = pair_json (beacon_ssid p, py_lower (addr2 p))"
        and new: "(beacon_ssid p, py_lower (addr2 p)) \<notin> AlertedRogues st"
        and ar: "AlertedRogues ?s1 = insert (beacon_ssid p, py_lower (addr2 p)) (AlertedRogues st)"
        by blast
      have fresh: "alert_pair m \<notin> pair_json ` AlertedRogues st"
        using new inj_pair_json unfolding pm by (auto dest: injD)
      have ih': "distinct (map alert_pair (fst (run_rogue evs ?s1))) \<and>
          set (map alert_pair (fst (run_rogue evs ?s1)))
             \<inter> insert (alert_pair m) (pair_json ` AlertedRogues st) = {} \<and>
          pair_json ` AlertedRogues (snd (run_rogue evs ?s1))
            = insert (alert_pair m) (pair_json ` AlertedRogues st)
                \<union> set (map alert_pair (fst (run_rogue evs ?s1)))"
        using ih unfolding ar by (simp add: pm)
      show ?thesis
        unfolding Beacon run_rogue_Beacon m using ih' fresh by auto
    qed
  next
    case (UpdateTrusted d)
    then show ?thesis using Cons.IH[of "UpdateTrustedCallback d st"]
      by (simp add: UpdateTrustedCallback_keeps)
  qed
qed

text \<open>
  Claim C5. Over any sequence of beacons and trust updates, from any state, no two
  published rogue alerts are about the same (SSID, BSSID) pair, none is about a pair
  already alerted before the sequence, and a beacon for a pair alerted before the
  sequence publishes nothing however many events lie in between.
\<close>

theorem rogue_alert_once_per_pair:
  "distinct (map alert_pair (fst (run_rogue evs st))) \<and>
   (\<forall>m\<in>set (fst (run_rogue evs st)). alert_pair m \<notin> pair_json ` AlertedRogues st) \<and>
   ((beacon_ssid p, py_lower (addr2 p)) \<in> AlertedRogues st \<longrightarrow>
       fst (DetectRogue p (snd (run_rogue evs st))) = [])"
proof -
  have sub: "pair_json ` AlertedRogues st \<subseteq> pair_json ` AlertedRogues (snd (run_rogue evs st))"
    using run_rogue_dedup[of evs st] by blast
  have mono: "AlertedRogues st \<subseteq> AlertedRogues (snd (run_rogue evs st))"
    using sub inj_pair_json by (auto simp: inj_image_subset_iff)
  have "(beacon_ssid p, py_lower (addr2 p)) \<in> AlertedRogues st \<longrightarrow>
       fst (DetectRogue p (snd (run_rogue evs st))) = []"
    using DetectRogue_cases[of p "snd (run_rogue evs st)"] mono by auto
  then show ?thesis using run_rogue_dedup[of evs st] by auto
qed


lemma eval_home_unknown:
  "py_lower ''AA:BB:CC:DD:EE:FF'' = ''aa:bb:cc:dd:ee:ff''"
  "py_lower ''aa:bb:cc:dd:ee:00'' = ''aa:bb:cc:dd:ee:00''"
  "beacon_ssid (beacon_frame ''HomeNet'' b) = ''HomeNet''"
  "beacon_ssid (beacon_frame ''Unknown1'' b) = ''Unknown1''"
  "beacon_ssid (beacon_frame ''Unknown2'' b) = ''Unknown2''"
  "NormaliseSSID ''Unknown1'' = ''Unknown1''"
  "NormaliseSSID ''Unknown2'' = ''Unknown2''"
  unfolding beacon_ssid_def beacon_frame_def by code_simp+

lemma home_simps:
  "PersonalTrusted home ''HomeNet'' = Some [''aa:bb:cc:dd:ee:ff'']"
  "AlertedRogues home = {}"
  by (simp_all add: home_def UpdateTrustedCallback_def init_rogue_def eval_home_unknown)

theorem rogue_alert_once_per_pair_witness:
  "distinct (map alert_pair (fst (run_rogue
       [Beacon (beacon_frame ''HomeNet'' ''aa:bb:cc:dd:ee:00''),
        Beacon (beacon_frame ''HomeNet'' ''aa:bb:cc:dd:ee:00'')] home))) \<and>
   fst (run_rogue
       [Beacon (beacon_frame ''HomeNet'' ''aa:bb:cc:dd:ee:00''),
        Beacon (beacon_frame ''HomeNet'' ''aa:bb:cc:dd:ee:00'')] home)
     = [(''alerts/rogue_ap'',
         [(''alert_type'', JStr ''rogue_ap''),
          (''network_type'', JStr ''personal''),
          (''ssid'', JStr ''HomeNet''),
          (''detected_bssid'', JStr ''aa:bb:cc:dd:ee:00''),
          (''expected'', JList [''aa:bb:cc:dd:ee:ff''])])] \<and>
   (''HomeNet'', ''aa:bb:cc:dd:ee:00'')
      \<in> AlertedRogues (snd (DetectRogue (beacon_frame ''HomeNet'' ''aa:bb:cc:dd:ee:00'') home)) \<and>
   fst (DetectRogue (beacon_frame ''HomeNet'' ''aa:bb:cc:dd:ee:00'')
          (snd (run_rogue [UpdateTrusted \<lparr>personal = None, public = None\<rparr>]
             (snd (DetectRogue (beacon_frame ''HomeNet'' ''aa:bb:cc:dd:ee:00'') home))))) = []"
  using rogue_alert_once_per_pair[of
       "[Beacon (beacon_frame ''HomeNet'' ''aa:bb:cc:dd:ee:00''),
         Beacon (beacon_frame ''HomeNet'' ''aa:bb:cc:dd:ee:00'')]" home]
     rogue_alert_once_per_pair[of "[UpdateTrusted \<lparr>personal = None, public = None\<rparr>]"
       "snd (DetectRogue (beacon_frame ''HomeNet'' ''aa:bb:cc:dd:ee:00'') home)"
       "beacon_frame ''HomeNet'' ''aa:bb:cc:dd:ee:00''"]
  by (simp add: DetectRogue_def Let_def PublishAlert_def eval_home_unknown home_simps
        beacon_frame_sel)

lemma DetectRogue_unrecognised:
  "UnrecognisedSSIDs (snd (DetectRogue p st)) =
     (if has_Dot11Beacon p \<and> PersonalTrusted st (beacon_ssid p) = None
          \<and> PublicTrusted st (beacon_ssid p) = None
          \<and> NormaliseSSID (beacon_ssid p) \<noteq> []
      then insert (NormaliseSSID (beacon_ssid p)) (UnrecognisedSSIDs st)
      else UnrecognisedSSIDs st)"
  by (simp add: DetectRogue_def Let_def split: option.splits)

lemma run_rogue_unrecognised_mono:
  "UnrecognisedSSIDs st \<subseteq> UnrecognisedSSIDs (snd (run_rogue evs st))"
proof (induction evs arbitrary: st)
  case Nil
  then show ?case by simp
next
  case (Cons e evs)
  show ?case
  proof (cases e)
    case (Beacon p)
    have "UnrecognisedSSIDs st \<subseteq> UnrecognisedSSIDs (snd (DetectRogue p st))"
      by (auto simp: DetectRogue_unrecognised)
    then show ?thesis
      using Cons.IH[of "snd (DetectRogue p st)"] unfolding Beacon run_rogue_Beacon by auto
  next
    case (UpdateTrusted d)
    then show ?thesis using Cons.IH[of "UpdateTrustedCallback d st"]
      by (simp add: UpdateTrustedCallback_keeps)
  qed
qed

lemma run_rogue_append:
  "run_rogue (xs @ ys) st =
     (fst (run_rogue xs st) @ fst (run_rogue ys (snd (run_rogue xs st))),
      snd (run_rogue ys (snd (run_rogue xs st))))"
proof (induction xs arbitrary: st)
  case Nil
  then show ?case by simp
next
  case (Cons e xs)
  then show ?case by (cases e) (simp_all add: case_prod_beta)
qed

lemma run_rogue_types:
  "\<forall>m\<in>set (fst (run_rogue evs st)).
      map_of (snd m) ''alert_type'' = Some (JStr ''rogue_ap'') \<and> map_of (snd m) ''ssids'' = None"
proof (induction evs arbitrary: st)
  case Nil
  then show ?case by simp
next
  case (Cons e evs)
  show ?case
  proof (cases e)
    case (Beacon p)
    show ?thesis
      using Cons.IH[of "snd (DetectRogue p st)"] DetectRogue_cases[of p st]
      unfolding Beacon run_rogue_Beacon by auto
  next
    case (UpdateTrusted d)
    then show ?thesis using Cons.IH[of "UpdateTrustedCallback d st"] by simp
  qed
qed

lemma observed_unmatched_kept:
  assumes "has_Dot11Beacon p"
    and "PersonalTrusted (snd (run_rogue evs1 st)) (beacon_ssid p) = None"
    and "PublicTrusted (snd (run_rogue evs1 st)) (beacon_ssid p) = None"
    and "NormaliseSSID (beacon_ssid p) \<noteq> []"
  shows "NormaliseSSID (beacon_ssid p) \<in> UnrecognisedSSIDs (snd (run_rogue (evs1 @ Beacon p # evs2) st))"
proof -
  let ?s1 = "snd (run_rogue evs1 st)"
  have "NormaliseSSID (beacon_ssid p) \<in> UnrecognisedSSIDs (snd (DetectRogue p ?s1))"
    using assms by (simp add: DetectRogue_unrecognised)
  then have "NormaliseSSID (beacon_ssid p) \<in> UnrecognisedSSIDs (snd (run_rogue evs2 (snd (DetectRogue p ?s1))))"
    using run_rogue_unrecognised_mono by blast
  then show ?thesis by (simp add: run_rogue_append case_prod_beta)
qed

text \<open>
  Claim C6, as the code has it. When sniffing ends by returning or by a keyboard
  interrupt, the run publishes, after the rogue alerts, exactly one
  \<open>unrecognised_aps\<close> alert if the set of unrecognised SSIDs is not empty and none
  if it is empty; its \<open>ssids\<close> field lists every member of the set exactly once, in
  the order the set is enumerated; and the normalised SSID of every beacon that matched
  neither mapping when it was observed, and is not empty, is in that list.
\<close>

theorem unrecognised_flush:
  assumes "how \<noteq> SniffException"
    and "py_list_of_set (UnrecognisedSSIDs (snd (run_rogue evs st))) Listed"
  shows "StartSniffing evs how Listed st =
           (fst (run_rogue evs st) @
              (if UnrecognisedSSIDs (snd (run_rogue evs st)) = {} then []
               else [(''alerts/rogue_ap'',
                      [(''alert_type'', JStr ''unrecognised_aps''), (''ssids'', JList Listed)])]),
            None) \<and>
         (\<forall>m\<in>set (fst (run_rogue evs st)). map_of (snd m) ''alert_type'' \<noteq> Some (JStr ''unrecognised_aps'')) \<and>
         distinct Listed \<and> set Listed = UnrecognisedSSIDs (snd (run_rogue evs st)) \<and>
         (\<forall>evs1 p evs2. evs = evs1 @ Beacon p # evs2 \<and> has_Dot11Beacon p \<and>
              PersonalTrusted (snd (run_rogue evs1 st)) (beacon_ssid p) = None \<and>
              PublicTrusted (snd (run_rogue evs1 st)) (beacon_ssid p) = None \<and>
              NormaliseSSID (beacon_ssid p) \<noteq> []
            \<longrightarrow> NormaliseSSID (beacon_ssid p) \<in> set Listed)"
proof -
  have a: "StartSniffing evs how Listed st =
           (fst (run_rogue evs st) @
              (if UnrecognisedSSIDs (snd (run_rogue evs st)) = {} then []
               else [(''alerts/rogue_ap'',
                      [(''alert_type'', JStr ''unrecognised_aps''), (''ssids'', JList Listed)])]),
            None)"
    using assms(1) by (cases how) (simp_all add: StartSniffing_def PublishAlert_def case_prod_beta)
  have b: "\<forall>m\<in>set (fst (run_rogue evs st)). map_of (snd m) ''alert_type'' \<noteq> Some (JStr ''unrecognised_aps'')"
    using run_rogue_types[of evs st] by auto
  have c: "distinct Listed" "set Listed = UnrecognisedSSIDs (snd (run_rogue evs st))"
    using assms(2) by (simp_all add: py_list_of_set_def)
  show ?thesis using a b c observed_unmatched_kept by auto
qed


lemma two_unknown_run:
  "fst (run_rogue two_unknown init_rogue) = []"
  "UnrecognisedSSIDs (snd (run_rogue two_unknown init_rogue)) = {''Unknown1'', ''Unknown2''}"
  by (auto simp add: two_unknown_def case_prod_beta DetectRogue_def Let_def eval_home_unknown beacon_frame_sel
        init_rogue_def)

lemma unsorted_pair: "\<not> sorted [''Unknown2'', ''Unknown1'']"
  by code_simp

theorem unrecognised_flush_witness:
  "py_list_of_set (UnrecognisedSSIDs (snd (run_rogue two_unknown init_rogue))) [''Unknown1'', ''Unknown2''] \<and>
   StartSniffing two_unknown SniffKeyboardInterrupt [''Unknown1'', ''Unknown2''] init_rogue =
     ([(''alerts/rogue_ap'',
        [(''alert_type'', JStr ''unrecognised_aps''),
         (''ssids'', JList [''Unknown1'', ''Unknown2''])])], None)"
  using unrecognised_flush[of SniffKeyboardInterrupt two_unknown init_rogue "[''Unknown1'', ''Unknown2'']"]
  by (simp add: two_unknown_run py_list_of_set_def)

text \<open>
  Claim C6 as stated fails: the set holding Unknown1 and Unknown2 may be enumerated as
  Unknown2, Unknown1, and the alert then carries that list, which is not sorted; and
  when sniffing ends with another exception the process exits without the alert.
\<close>

theorem unsorted_flush_counterexample:
  "py_list_of_set (UnrecognisedSSIDs (snd (run_rogue two_unknown init_rogue))) [''Unknown2'', ''Unknown1''] \<and>
   StartSniffing two_unknown SniffReturned [''Unknown2'', ''Unknown1''] init_rogue =
     ([(''alerts/rogue_ap'',
        [(''alert_type'', JStr ''unrecognised_aps''),
         (''ssids'', JList [''Unknown2'', ''Unknown1''])])], None) \<and>
   \<not> sorted [''Unknown2'', ''Unknown1''] \<and>
   StartSniffing two_unknown SniffException [''Unknown2'', ''Unknown1''] init_rogue =
     ([], Some (SystemExit 1))"
  using unsorted_pair
  by (auto simp add: StartSniffing_def PublishAlert_def case_prod_beta two_unknown_run py_list_of_set_def)

lemma py_lower_append: "py_lower (a @ b) = py_lower a @ py_lower b"
  by (simp add: py_lower_def)

lemma py_lower_colon: "py_lower '':'' = '':''"
  by code_simp

lemma py_lower_colon_Cons: "py_lower (CHR '':'' # xs) = CHR '':'' # py_lower xs"
  using py_lower_append[of "'':''" xs] py_lower_colon by simp










text \<open>
  Claim C8. Applying a trust-update command twice in succession gives the same state
  as applying it once.
\<close>

theorem trust_update_idempotent:
  "UpdateTrustedCallback U (UpdateTrustedCallback U st) = UpdateTrustedCallback U st"
  by (simp add: UpdateTrustedCallback_def split: option.splits)

theorem trust_update_idempotent_witness:
  "UpdateTrustedCallback
      \<lparr>personal = None, public = Some [''CafeWifi'' \<mapsto> [''11:22:33:AA:BB:CC'']]\<rparr> cafe = cafe \<and>
   PublicTrusted cafe ''CafeWifi'' = Some [''11:22:33'']"
  using trust_update_idempotent[of
      "\<lparr>personal = None, public = Some [''CafeWifi'' \<mapsto> [''11:22:33:AA:BB:CC'']]\<rparr>" init_rogue]
  by (simp add: cafe_def [symmetric] cafe_simps)

text \<open>
  Claim C9. When the injection primitive returns, \<open>BlockRogueAP\<close> records the target
  address with the current time; when it raises, the exception reaches the caller and
  the block dictionary is unchanged.
\<close>

theorem block_record_on_success_only:
  assumes "sendp_ok \<lparr>inj_addr1 = ''ff:ff:ff:ff:ff:ff'', inj_addr2 = R, inj_addr3 = R,
                      inj_reason = 7\<rparr> Iface Count = None"
    and "sendp_bad \<lparr>inj_addr1 = ''ff:ff:ff:ff:ff:ff'', inj_addr2 = R, inj_addr3 = R,
                      inj_reason = 7\<rparr> Iface Count = Some e"
  shows "BlockRogueAP sendp_ok now R Iface Count B = (Inr (), B(R \<mapsto> now)) \<and>
         BlockRogueAP sendp_bad now R Iface Count B = (Inl e, B)"
  using assms by (simp add: BlockRogueAP_def)

theorem block_record_on_success_only_witness:
  "BlockRogueAP (\<lambda>f i c. None) 100 ''de:ad:be:ef:00:01'' ''wlan1'' 10 Map.empty
     = (Inr (), [''de:ad:be:ef:00:01'' \<mapsto> 100]) \<and>
   BlockRogueAP (\<lambda>f i c. Some (Raised ''No such device'')) 100 ''de:ad:be:ef:00:01'' ''wlan1'' 10 Map.empty
     = (Inl (Raised ''No such device''), Map.empty)"
  using block_record_on_success_only[of "\<lambda>f i c. None" "''de:ad:be:ef:00:01''" "''wlan1''" 10
      "\<lambda>f i c. Some (Raised ''No such device'')" "Raised ''No such device''" 100 Map.empty]
  by simp

lemma run_rogue_no_empty:
  "[] \<notin> UnrecognisedSSIDs st \<Longrightarrow> [] \<notin> UnrecognisedSSIDs (snd (run_rogue evs st))"
proof (induction evs arbitrary: st)
  case Nil
  then show ?case by simp
next
  case (Cons e evs)
  show ?case
  proof (cases e)
    case (Beacon p)
    have "[] \<notin> UnrecognisedSSIDs (snd (DetectRogue p st))"
      using Cons.prems by (auto simp: DetectRogue_unrecognised)
    then show ?thesis
      using Cons.IH[of "snd (DetectRogue p st)"] unfolding Beacon run_rogue_Beacon by simp
  next
    case (UpdateTrusted d)
    then show ?thesis using Cons.IH[of "UpdateTrustedCallback d st"] Cons.prems
      by (simp add: UpdateTrustedCallback_keeps)
  qed
qed

text \<open>
  Claim C10. A call of \<open>DetectRogue\<close> changes the set of unrecognised SSIDs only by
  adding the normalised SSID, and only when that is not empty; after any sequence of
  beacons and trust updates from the initial state the empty string is not in the set,
  and no \<open>ssids\<close> list published at the end of sniffing contains it.
\<close>

theorem empty_ssid_never_unrecognised:
  "(UnrecognisedSSIDs (snd (DetectRogue p st)) \<noteq> UnrecognisedSSIDs st \<longrightarrow>
       NormaliseSSID (beacon_ssid p) \<noteq> [] \<and>
       UnrecognisedSSIDs (snd (DetectRogue p st))
         = insert (NormaliseSSID (beacon_ssid p)) (UnrecognisedSSIDs st)) \<and>
   [] \<notin> UnrecognisedSSIDs (snd (run_rogue evs init_rogue)) \<and>
   (py_list_of_set (UnrecognisedSSIDs (snd (run_rogue evs init_rogue))) Listed \<longrightarrow>
      (\<forall>m\<in>set (fst (StartSniffing evs how Listed init_rogue)).
          \<forall>l. map_of (snd m) ''ssids'' = Some (JList l) \<longrightarrow> [] \<notin> set l))"
proof -
  have a: "UnrecognisedSSIDs (snd (DetectRogue p st)) \<noteq> UnrecognisedSSIDs st \<longrightarrow>
       NormaliseSSID (beacon_ssid p) \<noteq> [] \<and>
       UnrecognisedSSIDs (snd (DetectRogue p st))
         = insert (NormaliseSSID (beacon_ssid p)) (UnrecognisedSSIDs st)"
    by (simp add: DetectRogue_unrecognised)
  have b: "[] \<notin> UnrecognisedSSIDs (snd (run_rogue evs init_rogue))"
    by (rule run_rogue_no_empty) (simp add: init_rogue_def)
  have c: "\<forall>m\<in>set (fst (StartSniffing evs how Listed init_rogue)).
          \<forall>l. map_of (snd m) ''ssids'' = Some (JList l) \<longrightarrow> [] \<notin> set l"
    if l: "py_list_of_set (UnrecognisedSSIDs (snd (run_rogue evs init_rogue))) Listed"
  proof -
    have "[] \<notin> set Listed" using l b by (simp add: py_list_of_set_def)
    then show ?thesis
      using run_rogue_types[of evs init_rogue]
      by (cases how) (auto simp: StartSniffing_def PublishAlert_def case_prod_beta)
  qed
  show ?thesis using a b c by blast
qed

lemma eval_hidden_ssid:
  "beacon_ssid (beacon_frame [CHR 0x00, CHR 0x00, CHR '' ''] b) = []"
  "NormaliseSSID [] = []"
  unfolding beacon_ssid_def beacon_frame_def by code_simp+

theorem empty_ssid_never_unrecognised_witness:
  "UnrecognisedSSIDs (snd (DetectRogue (beacon_frame [CHR 0x00, CHR 0x00, CHR '' ''] ''de:ad:be:ef:00:01'') init_rogue)) = {} \<and>
   UnrecognisedSSIDs (snd (DetectRogue (beacon_frame ''Unknown1'' ''de:ad:be:ef:00:01'') init_rogue))
     = {''Unknown1''} \<and>
   py_list_of_set (UnrecognisedSSIDs (snd (run_rogue
       [Beacon (beacon_frame [CHR 0x00, CHR 0x00, CHR '' ''] ''de:ad:be:ef:00:01''),
        Beacon (beacon_frame ''Unknown1'' ''de:ad:be:ef:00:01'')] init_rogue))) [''Unknown1''] \<and>
   StartSniffing
       [Beacon (beacon_frame [CHR 0x00, CHR 0x00, CHR '' ''] ''de:ad:be:ef:00:01''),
        Beacon (beacon_frame ''Unknown1'' ''de:ad:be:ef:00:01'')] SniffReturned [''Unknown1''] init_rogue
     = ([(''alerts/rogue_ap'',
          [(''alert_type'', JStr ''unrecognised_aps''), (''ssids'', JList [''Unknown1''])])], None)"
  using empty_ssid_never_unrecognised[of "beacon_frame ''Unknown1'' ''de:ad:be:ef:00:01''"
      init_rogue
      "[Beacon (beacon_frame [CHR 0x00, CHR 0x00, CHR '' ''] ''de:ad:be:ef:00:01''),
        Beacon (beacon_frame ''Unknown1'' ''de:ad:be:ef:00:01'')]" "[''Unknown1'']" SniffReturned]
  by (simp add: StartSniffing_def PublishAlert_def case_prod_beta DetectRogue_def Let_def
        eval_hidden_ssid eval_home_unknown beacon_frame_sel init_rogue_def py_list_of_set_def)

end
